theory Spec2Isabelle
  imports Complex_Main
begin

section \<open>Go standard-library primitives used by the converter\<close>

text \<open>A Go string is a sequence of bytes; \<^typ>\<open>string\<close> is a list of 8-bit characters.
  Runes (code points) are natural numbers.\<close>

definition byte :: "char \<Rightarrow> nat" where
  "byte c = of_char c"

definition RuneError :: nat where
  "RuneError = 0xFFFD"

text \<open>\<^verbatim>\<open>utf8.DecodeRune\<close>: the first rune of a byte string and its width. The first byte
  gives the length of the encoding and the range accepted for the second byte; an invalid
  or truncated encoding is \<open>(RuneError, 1)\<close>, the empty string \<open>(RuneError, 0)\<close>.\<close>

definition first_size :: "nat \<Rightarrow> nat" where
  "first_size p0 = (if p0 < 0xE0 then 2 else if p0 < 0xF0 then 3 else 4)"

definition accept_lo :: "nat \<Rightarrow> nat" where
  "accept_lo p0 = (if p0 = 0xE0 then 0xA0 else if p0 = 0xF0 then 0x90 else 0x80)"

definition accept_hi :: "nat \<Rightarrow> nat" where
  "accept_hi p0 = (if p0 = 0xED then 0x9F else if p0 = 0xF4 then 0x8F else 0xBF)"

definition decode_multi :: "nat \<Rightarrow> nat \<Rightarrow> nat \<Rightarrow> nat \<Rightarrow> string \<Rightarrow> nat \<times> nat" where
  "decode_multi p0 sz lo hi p =
     (if length p < sz then (RuneError, 1)
      else let b1 = byte (p ! 1) in
        if b1 < lo \<or> hi < b1 then (RuneError, 1)
        else if sz \<le> 2 then ((p0 mod 32) * 64 + b1 mod 64, 2)
        else let b2 = byte (p ! 2) in
          if b2 < 0x80 \<or> 0xBF < b2 then (RuneError, 1)
          else if sz \<le> 3 then ((p0 mod 16) * 4096 + (b1 mod 64) * 64 + b2 mod 64, 3)
          else let b3 = byte (p ! 3) in
            if b3 < 0x80 \<or> 0xBF < b3 then (RuneError, 1)
            else ((p0 mod 8) * 262144 + (b1 mod 64) * 4096 + (b2 mod 64) * 64
                    + b3 mod 64, 4))"

definition DecodeRune :: "string \<Rightarrow> nat \<times> nat" where
  "DecodeRune p =
     (if length p < 1 then (RuneError, 0)
      else let p0 = byte (p ! 0) in
        if p0 < 0x80 then (p0, 1)
        else if p0 < 0xC2 \<or> 0xF4 < p0 then (RuneError, 1)
        else decode_multi p0 (first_size p0) (accept_lo p0) (accept_hi p0) p)"

text \<open>\<^verbatim>\<open>encoding/xml\<close>: \<^verbatim>\<open>isInCharacterRange\<close>, and the replacement that \<^verbatim>\<open>EscapeText\<close>
  writes for one decoded rune (\<open>None\<close>: the bytes of the rune are copied). \<^verbatim>\<open>EscapeText\<close>
  escapes newlines too.\<close>

definition isInCharacterRange :: "nat \<Rightarrow> bool" where
  "isInCharacterRange r \<longleftrightarrow>
     r = 0x09 \<or> r = 0x0A \<or> r = 0x0D \<or> (0x20 \<le> r \<and> r \<le> 0xD7FF)
     \<or> (0xE000 \<le> r \<and> r \<le> 0xFFFD) \<or> (0x10000 \<le> r \<and> r \<le> 0x10FFFF)"

definition escFFFD :: string where
  "escFFFD = [CHR 0xEF, CHR 0xBF, CHR 0xBD]"

definition esc_of :: "nat \<Rightarrow> nat \<Rightarrow> string option" where
  "esc_of r width =
     (if r = 0x22 then Some ''&#34;''
      else if r = 0x27 then Some ''&#39;''
      else if r = 0x26 then Some ''&amp;''
      else if r = 0x3C then Some ''&lt;''
      else if r = 0x3E then Some ''&gt;''
      else if r = 0x09 then Some ''&#x9;''
      else if r = 0x0A then Some ''&#xA;''
      else if r = 0x0D then Some ''&#xD;''
      else if \<not> isInCharacterRange r \<or> (r = RuneError \<and> width = 1) then Some escFFFD
      else None)"

lemma first_size_range: "2 \<le> first_size p0 \<and> first_size p0 \<le> 4"
  by (simp add: first_size_def)


lemma decode_multi_width:
  assumes "2 \<le> sz" "sz \<le> 4" "1 \<le> length p"
  shows "1 \<le> snd (decode_multi p0 sz lo hi p) \<and> snd (decode_multi p0 sz lo hi p) \<le> length p"
proof (cases "length p < sz")
  case True
  then show ?thesis using assms by (simp add: decode_multi_def)
next
  case False
  then have "sz \<le> length p" by simp
  then show ?thesis using assms
    unfolding decode_multi_def Let_def by (simp split: if_split)
qed

lemma DecodeRune_width:
  assumes "p \<noteq> []"
  shows "1 \<le> snd (DecodeRune p) \<and> snd (DecodeRune p) \<le> length p"
proof -
  have len: "1 \<le> length p" using assms by (cases p) simp_all
  note m = decode_multi_width[OF conjunct1[OF first_size_range] conjunct2[OF first_size_range] len]
  show ?thesis using len m assms
    unfolding DecodeRune_def Let_def by (simp split: if_split)
qed



text \<open>The runes of a string with their bytes, as a loop that calls \<^verbatim>\<open>DecodeRune\<close> and
  advances by the width meets them; \<^verbatim>\<open>EscapeText\<close> writes the replacement or the bytes of
  each. \<open>escapeXML\<close> is the converter's wrapper.\<close>

function rune_steps :: "string \<Rightarrow> (nat \<times> string) list" where
  "rune_steps s =
     (if s = [] then []
      else (fst (DecodeRune s), take (snd (DecodeRune s)) s)
           # rune_steps (drop (snd (DecodeRune s)) s))"
  by pat_completeness auto
termination
proof (relation "measure length")
  show "wf (measure length)" by simp
next
  fix s :: string
  assume "s \<noteq> []"
  then have "1 \<le> snd (DecodeRune s)" "1 \<le> length s"
    using DecodeRune_width by (blast, cases s, simp_all)
  then show "(drop (snd (DecodeRune s)) s, s) \<in> measure length"
    by simp
qed

declare rune_steps.simps [simp del]

lemma rune_steps_Nil [simp, code]: "rune_steps [] = []"
  by (simp add: rune_steps.simps)

lemma rune_steps_Cons [simp, code]:
  "rune_steps (c # cs) =
     (fst (DecodeRune (c # cs)), take (snd (DecodeRune (c # cs))) (c # cs))
     # rune_steps (drop (snd (DecodeRune (c # cs))) (c # cs))"
  by (subst rune_steps.simps) simp

definition esc_step :: "nat \<times> string \<Rightarrow> string" where
  "esc_step x = (case esc_of (fst x) (length (snd x)) of Some e \<Rightarrow> e | None \<Rightarrow> snd x)"

definition escapeText :: "string \<Rightarrow> string" where
  "escapeText s = concat (map esc_step (rune_steps s))"

definition escapeXML :: "string \<Rightarrow> string" where
  "escapeXML s = escapeText s"











section \<open>More standard-library primitives\<close>

text \<open>\<^verbatim>\<open>int(x)\<close> on a \<^verbatim>\<open>float64\<close> truncates toward zero. The float is idealised as a
  real number: rounding, infinities and NaN are outside the model, and no property below
  depends on the numeric value of a size or margin.\<close>

definition go_int :: "real \<Rightarrow> int" where
  "go_int x = (if 0 \<le> x then \<lfloor>x\<rfloor> else \<lceil>x\<rceil>)"

text \<open>\<^verbatim>\<open>fmt.Sprintf("%d", n)\<close>; Go's 64-bit \<^verbatim>\<open>int\<close> is modelled as an unbounded integer.\<close>

function nat_digits :: "nat \<Rightarrow> string" where
  "nat_digits n =
     (if n < 10 then [char_of (48 + n)] else nat_digits (n div 10) @ [char_of (48 + n mod 10)])"
  by pat_completeness auto
termination
  by (relation "measure id") auto

declare nat_digits.simps [simp del]

definition itoa :: "int \<Rightarrow> string" where
  "itoa i = (if i < 0 then CHR ''-'' # nat_digits (nat (- i)) else nat_digits (nat i))"

text \<open>\<^verbatim>\<open>strings.TrimRight(s, "\n")\<close> and \<^verbatim>\<open>strings.Split(s, "\n")\<close>.\<close>

definition TrimRight_nl :: "string \<Rightarrow> string" where
  "TrimRight_nl s = rev (dropWhile (\<lambda>c. c = CHR ''\<newline>'') (rev s))"

fun Split_nl :: "string \<Rightarrow> string list" where
  "Split_nl [] = [[]]"
| "Split_nl (c # cs) =
     (if c = CHR ''\<newline>'' then [] # Split_nl cs
      else (c # hd (Split_nl cs)) # tl (Split_nl cs))"

text \<open>\<^verbatim>\<open>strings.Join(xs, sep)\<close>.\<close>

fun Join :: "string list \<Rightarrow> string \<Rightarrow> string" where
  "Join [] sep = []"
| "Join [x] sep = x"
| "Join (x # y # ys) sep = x @ sep @ Join (y # ys) sep"

text \<open>\<^verbatim>\<open>regexp.MustCompile(`\s+`).ReplaceAllString(text, " ")\<close>: Go's \<^verbatim>\<open>\s\<close> is the class
  \<^verbatim>\<open>[\t\n\f\r ]\<close>; every leftmost-longest match is replaced by one space and the bytes
  between matches are copied.\<close>

definition is_s :: "char \<Rightarrow> bool" where
  "is_s c \<longleftrightarrow> c = CHR 0x09 \<or> c = CHR 0x0A \<or> c = CHR 0x0C \<or> c = CHR 0x0D \<or> c = CHR 0x20"

function ReplaceAll_s :: "string \<Rightarrow> string" where
  "ReplaceAll_s [] = []"
| "ReplaceAll_s (c # cs) =
     (if is_s c then CHR 0x20 # ReplaceAll_s (dropWhile is_s cs) else c # ReplaceAll_s cs)"
  by pat_completeness auto
termination
proof (relation "measure length")
  show "wf (measure length)" by simp
next
  fix c :: char and cs :: string
  show "(dropWhile is_s cs, c # cs) \<in> measure length"
    using length_dropWhile_le[of is_s cs] by simp
next
  fix c :: char and cs :: string
  show "(cs, c # cs) \<in> measure length" by simp
qed

text \<open>\<^verbatim>\<open>strings.TrimSpace\<close>: leading and trailing runes with \<^verbatim>\<open>unicode.IsSpace\<close> are removed.
  The leading runes are decoded with \<^verbatim>\<open>DecodeRune\<close>, the trailing ones with
  \<^verbatim>\<open>DecodeLastRune\<close>.\<close>

definition IsSpace :: "nat \<Rightarrow> bool" where
  "IsSpace r \<longleftrightarrow>
     (0x09 \<le> r \<and> r \<le> 0x0D) \<or> r = 0x20 \<or> r = 0x85 \<or> r = 0xA0 \<or> r = 0x1680
     \<or> (0x2000 \<le> r \<and> r \<le> 0x200A) \<or> r = 0x2028 \<or> r = 0x2029 \<or> r = 0x202F
     \<or> r = 0x205F \<or> r = 0x3000"

definition RuneStart :: "char \<Rightarrow> bool" where
  "RuneStart c \<longleftrightarrow> \<not> (0x80 \<le> byte c \<and> byte c < 0xC0)"

definition last_start :: "string \<Rightarrow> nat" where
  "last_start p =
     (let e = length p in
      if 2 \<le> e \<and> RuneStart (p ! (e - 2)) then e - 2
      else if 3 \<le> e \<and> RuneStart (p ! (e - 3)) then e - 3
      else if 4 \<le> e \<and> RuneStart (p ! (e - 4)) then e - 4
      else if e \<le> 4 then 0 else e - 5)"

definition DecodeLastRune :: "string \<Rightarrow> nat \<times> nat" where
  "DecodeLastRune p =
     (if length p = 0 then (RuneError, 0)
      else if byte (p ! (length p - 1)) < 0x80 then (byte (p ! (length p - 1)), 1)
      else let start = last_start p; d = DecodeRune (drop start p) in
        if start + snd d \<noteq> length p then (RuneError, 1) else d)"

lemma DecodeLastRune_width:
  assumes "p \<noteq> []"
  shows "1 \<le> snd (DecodeLastRune p) \<and> snd (DecodeLastRune p) \<le> length p"
proof -
  have len: "1 \<le> length p" using assms by (cases p) simp_all
  have "last_start p < length p"
    using len by (auto simp: last_start_def Let_def)
  then have "1 \<le> snd (DecodeRune (drop (last_start p) p))"
    using DecodeRune_width[of "drop (last_start p) p"] by simp
  then show ?thesis using len assms
    unfolding DecodeLastRune_def Let_def by (simp split: if_split)
qed

definition TrimLeft_space :: "string \<Rightarrow> string" where
  "TrimLeft_space s = concat (map snd (dropWhile (\<lambda>x. IsSpace (fst x)) (rune_steps s)))"

function TrimRight_space :: "string \<Rightarrow> string" where
  "TrimRight_space s =
     (if s = [] then []
      else if IsSpace (fst (DecodeLastRune s))
        then TrimRight_space (take (length s - snd (DecodeLastRune s)) s)
      else s)"
  by pat_completeness auto
termination
proof (relation "measure length")
  show "wf (measure length)" by simp
next
  fix s :: string
  assume "s \<noteq> []"
  then have "1 \<le> snd (DecodeLastRune s)" "1 \<le> length s"
    using DecodeLastRune_width by (blast, cases s, simp_all)
  then show "(take (length s - snd (DecodeLastRune s)) s, s) \<in> measure length"
    by simp
qed

declare TrimRight_space.simps [simp del]

definition TrimSpace :: "string \<Rightarrow> string" where
  "TrimSpace s = TrimRight_space (TrimLeft_space s)"

text \<open>\<^verbatim>\<open>strings.ToLower\<close> on the ASCII letters; no other rune lower-cases to a
  character of \<^verbatim>\<open>"a4"\<close> or \<^verbatim>\<open>"legal"\<close>, the only strings the result is compared with.\<close>

definition ToLower :: "string \<Rightarrow> string" where
  "ToLower s = map (\<lambda>c. if 0x41 \<le> byte c \<and> byte c \<le> 0x5A then char_of (byte c + 32) else c) s"

section \<open>The Markdown syntax tree\<close>

text \<open>The tree that the goldmark parser hands to the converter. Every node has a kind and a
  list of children; a kind carries the attributes the converter reads: a heading's or an
  emphasis' level, the lines of a code block, whether a list is ordered, the bytes of a text
  segment or string node, a link's destination and an autolink's URL. \<open>ast_Other\<close> stands for
  every kind the converter has no case for (tables, strikethrough, raw HTML, task boxes).\<close>

datatype kind =
    ast_Document
  | ast_Heading int
  | ast_Paragraph
  | ast_FencedCodeBlock "string list"
  | ast_CodeBlock "string list"
  | ast_List bool
  | ast_ListItem
  | ast_Blockquote
  | ast_ThematicBreak
  | ast_HTMLBlock
  | ast_TextBlock
  | ast_Text string
  | ast_String string
  | ast_Emphasis int
  | ast_CodeSpan
  | ast_Link string
  | ast_AutoLink string
  | ast_Image
  | ast_Other

datatype node = Node kind "node list"

fun node_kind :: "node \<Rightarrow> kind" where
  "node_kind (Node k cs) = k"

fun children :: "node \<Rightarrow> node list" where
  "children (Node k cs) = cs"

section \<open>The converter\<close>

record Options =
  FontFamily :: string
  FontSize :: real
  CodeFontFamily :: string
  CodeFontSize :: real
  MarginTop :: real
  MarginBottom :: real
  MarginLeft :: real
  MarginRight :: real
  PageSize :: string

record Converter =
  opts :: Options
  paragraphs :: "string list"

definition New :: "Options \<Rightarrow> Converter" where
  "New os = \<lparr>opts = os, paragraphs = []\<rparr>"

definition append_paragraph :: "Converter \<Rightarrow> string \<Rightarrow> Converter" where
  "append_paragraph c para = c\<lparr>paragraphs := paragraphs c @ [para]\<rparr>"

record RunStyle =
  Text :: string
  Bold :: bool
  Italic :: bool
  Code :: bool
  Link :: bool
  LinkURL :: string
  Color :: string
  Highlight :: bool

text \<open>The zero value of \<^verbatim>\<open>RunStyle\<close>.\<close>

definition RunStyle0 :: RunStyle where
  "RunStyle0 = \<lparr>Text = [], Bold = False, Italic = False, Code = False, Link = False,
                 LinkURL = [], Color = [], Highlight = False\<rparr>"

subsection \<open>extractText\<close>

fun code_span_text :: "node list \<Rightarrow> string" where
  "code_span_text [] = []"
| "code_span_text (Node k cs # rest) =
     (case k of ast_Text t \<Rightarrow> t | _ \<Rightarrow> []) @ code_span_text rest"

fun walk_text :: "node \<Rightarrow> string" and walk_texts :: "node list \<Rightarrow> string" where
  "walk_text (Node k cs) =
     (case k of
        ast_Text t \<Rightarrow> t @ walk_texts cs
      | ast_String v \<Rightarrow> v @ walk_texts cs
      | ast_CodeSpan \<Rightarrow> code_span_text cs
      | _ \<Rightarrow> walk_texts cs)"
| "walk_texts [] = []"
| "walk_texts (n # ns) = walk_text n @ walk_texts ns"

definition extractText :: "node \<Rightarrow> string" where
  "extractText n = TrimSpace (ReplaceAll_s (walk_text n))"

subsection \<open>processInlineNodes\<close>

text \<open>The loop over the children of a node; the argument is the list of children.\<close>

fun processInlineNodes :: "node list \<Rightarrow> RunStyle list" where
  "processInlineNodes [] = []"
| "processInlineNodes (Node k cs # rest) =
     (case k of
        ast_Text t \<Rightarrow> [RunStyle0\<lparr>Text := t\<rparr>]
      | ast_String v \<Rightarrow> [RunStyle0\<lparr>Text := v\<rparr>]
      | ast_Emphasis lvl \<Rightarrow>
          (if lvl = 1 then [RunStyle0\<lparr>Text := extractText (Node k cs), Italic := True\<rparr>]
           else if lvl = 2 then [RunStyle0\<lparr>Text := extractText (Node k cs), Bold := True\<rparr>]
           else [])
      | ast_CodeSpan \<Rightarrow>
          [RunStyle0\<lparr>Text := extractText (Node k cs), Code := True, Highlight := True\<rparr>]
      | ast_Link dest \<Rightarrow>
          [RunStyle0\<lparr>Text := extractText (Node k cs), Link := True, LinkURL := dest,
                     Color := ''0000FF''\<rparr>]
      | ast_AutoLink url \<Rightarrow>
          [RunStyle0\<lparr>Text := url, Link := True, LinkURL := url, Color := ''0000FF''\<rparr>]
      | ast_Image \<Rightarrow>
          (let altText = extractText (Node k cs);
               altText = (if altText = [] then ''Image'' else altText)
           in [RunStyle0\<lparr>Text := ''['' @ altText @ '']'', Italic := True, Color := ''808080''\<rparr>])
      | _ \<Rightarrow> (if cs \<noteq> [] then processInlineNodes cs else []))
     @ processInlineNodes rest"

subsection \<open>wrapRuns\<close>

definition wrapRun :: "int \<Rightarrow> int \<Rightarrow> RunStyle \<Rightarrow> string" where
  \<open>wrapRun codeFontSize defaultFontSize run =
     (let fontSize = (if Code run then codeFontSize else defaultFontSize) in
      ''<w:r><w:rPr>''
      @ (if Bold run then ''<w:b/>'' else [])
      @ (if Italic run then ''<w:i/>'' else [])
      @ (if Color run \<noteq> [] then ''<w:color w:val="'' @ Color run @ ''"/>'' else [])
      @ (if Link run then ''<w:u w:val="single"/>'' else [])
      @ (if Highlight run then ''<w:highlight w:val="lightGray"/>'' else [])
      @ (if Code run then ''<w:rFonts w:ascii="Consolas" w:hAnsi="Consolas"/>'' else [])
      @ ''<w:sz w:val="'' @ itoa fontSize @ ''"/><w:szCs w:val="'' @ itoa fontSize @ ''"/>''
      @ ''</w:rPr>''
      @ ''<w:t xml:space="preserve">'' @ escapeXML (Text run) @ ''</w:t>''
      @ ''</w:r>'')\<close>

primrec wrapRuns_loop :: "int \<Rightarrow> int \<Rightarrow> RunStyle list \<Rightarrow> string" where
  "wrapRuns_loop codeFontSize defaultFontSize [] = []"
| "wrapRuns_loop codeFontSize defaultFontSize (run # runs) =
     wrapRun codeFontSize defaultFontSize run @ wrapRuns_loop codeFontSize defaultFontSize runs"

definition wrapRuns :: "Converter \<Rightarrow> RunStyle list \<Rightarrow> int \<Rightarrow> string" where
  "wrapRuns c runs defaultFontSize =
     wrapRuns_loop (go_int (CodeFontSize (opts c) * 2)) defaultFontSize runs"

subsection \<open>Headings and paragraphs\<close>

definition headingSizes :: "int \<rightharpoonup> int" where
  "headingSizes = [1 \<mapsto> 48, 2 \<mapsto> 40, 3 \<mapsto> 32, 4 \<mapsto> 28, 5 \<mapsto> 24, 6 \<mapsto> 22]"

text \<open>Indexing a Go map gives the zero value for a missing key.\<close>

definition map_index :: "(int \<rightharpoonup> int) \<Rightarrow> int \<Rightarrow> int" where
  "map_index m k = (case m k of None \<Rightarrow> 0 | Some v \<Rightarrow> v)"

definition heading_para :: "int \<Rightarrow> string \<Rightarrow> string" where
  \<open>heading_para sz text =
     ''<w:p>\<newline>'' @
     ''      <w:pPr>\<newline>'' @
     ''        <w:spacing w:after="120" w:before="240"/>\<newline>'' @
     ''      </w:pPr>\<newline>'' @
     ''      <w:r>\<newline>'' @
     ''        <w:rPr>\<newline>'' @
     ''          <w:b/>\<newline>'' @
     ''          <w:sz w:val="'' @ itoa sz @ ''"/>\<newline>'' @
     ''          <w:szCs w:val="'' @ itoa sz @ ''"/>\<newline>'' @
     ''        </w:rPr>\<newline>'' @
     ''        <w:t xml:space="preserve">'' @ escapeXML text @ ''</w:t>\<newline>'' @
     ''      </w:r>\<newline>'' @
     ''    </w:p>''\<close>

definition clamp_level :: "int \<Rightarrow> int" where
  "clamp_level level =
     (let level = (if level < 1 then 1 else level) in if level > 6 then 6 else level)"

definition addHeading :: "Converter \<Rightarrow> int \<Rightarrow> node \<Rightarrow> Converter" where
  "addHeading c node_Level node =
     (let level = clamp_level node_Level;
          text = extractText node;
          sz = map_index headingSizes level
      in append_paragraph c (heading_para sz text))"

definition paragraph_para :: "string \<Rightarrow> string" where
  \<open>paragraph_para runs_xml =
     ''<w:p>\<newline>'' @
     ''      <w:pPr>\<newline>'' @
     ''        <w:spacing w:after="160"/>\<newline>'' @
     ''      </w:pPr>\<newline>'' @
     ''      '' @ runs_xml @ ''\<newline>'' @
     ''    </w:p>''\<close>

definition addParagraph :: "Converter \<Rightarrow> node list \<Rightarrow> Converter" where
  "addParagraph c node_children =
     (let runs = processInlineNodes node_children;
          fontSize = go_int (FontSize (opts c) * 2)
      in append_paragraph c (paragraph_para (wrapRuns c runs fontSize)))"

subsection \<open>Code blocks\<close>

definition code_line_para :: "int \<Rightarrow> string \<Rightarrow> string" where
  \<open>code_line_para codeFontSize line =
     ''<w:p>\<newline>'' @
     ''      <w:pPr>\<newline>'' @
     ''        <w:shd w:val="clear" w:color="auto" w:fill="F6F8FA"/>\<newline>'' @
     ''        <w:ind w:left="360"/>\<newline>'' @
     ''        <w:spacing w:after="0"/>\<newline>'' @
     ''      </w:pPr>\<newline>'' @
     ''      <w:r>\<newline>'' @
     ''        <w:rPr>\<newline>'' @
     ''          <w:rFonts w:ascii="Consolas" w:hAnsi="Consolas"/>\<newline>'' @
     ''          <w:sz w:val="'' @ itoa codeFontSize @ ''"/>\<newline>'' @
     ''          <w:szCs w:val="'' @ itoa codeFontSize @ ''"/>\<newline>'' @
     ''        </w:rPr>\<newline>'' @
     ''        <w:t xml:space="preserve">'' @ escapeXML line @ ''</w:t>\<newline>'' @
     ''      </w:r>\<newline>'' @
     ''    </w:p>''\<close>

definition code_spacer :: string where
  \<open>code_spacer = ''<w:p><w:pPr><w:spacing w:after="160"/></w:pPr></w:p>''\<close>

primrec addCodeLines :: "Converter \<Rightarrow> int \<Rightarrow> string list \<Rightarrow> Converter" where
  "addCodeLines c codeFontSize [] = c"
| "addCodeLines c codeFontSize (line # codeLines) =
     addCodeLines
       (append_paragraph c (code_line_para codeFontSize (if line = [] then '' '' else line)))
       codeFontSize codeLines"

definition addCodeBlock :: "Converter \<Rightarrow> string list \<Rightarrow> Converter" where
  "addCodeBlock c node_Lines =
     (let codeText = concat node_Lines;
          codeText = TrimRight_nl codeText;
          codeLines = Split_nl codeText;
          codeFontSize = go_int (CodeFontSize (opts c) * 2)
      in append_paragraph (addCodeLines c codeFontSize codeLines) code_spacer)"

subsection \<open>Lists\<close>

text \<open>The bullet literal, byte for byte as it stands in the source file.\<close>

definition bullet_literal :: string where
  "bullet_literal = [CHR 0xC3, CHR 0xA2, CHR 0xE2, CHR 0x82, CHR 0xAC, CHR 0xC2, CHR 0xA2, CHR 0x20]"

definition list_bullet :: "bool \<Rightarrow> int \<Rightarrow> string" where
  "list_bullet isOrdered itemNum = (if isOrdered then itoa itemNum @ ''. '' else bullet_literal)"

definition list_item_para :: "int \<Rightarrow> int \<Rightarrow> string \<Rightarrow> string \<Rightarrow> string" where
  \<open>list_item_para indent fontSize bullet runs_xml =
     ''<w:p>\<newline>'' @
     ''      <w:pPr>\<newline>'' @
     ''        <w:ind w:left="'' @ itoa indent @ ''"/>\<newline>'' @
     ''        <w:spacing w:after="80"/>\<newline>'' @
     ''      </w:pPr>\<newline>'' @
     ''      <w:r>\<newline>'' @
     ''        <w:rPr>\<newline>'' @
     ''          <w:sz w:val="'' @ itoa fontSize @ ''"/>\<newline>'' @
     ''          <w:szCs w:val="'' @ itoa fontSize @ ''"/>\<newline>'' @
     ''        </w:rPr>\<newline>'' @
     ''        <w:t xml:space="preserve">'' @ escapeXML bullet @ ''</w:t>\<newline>'' @
     ''      </w:r>\<newline>'' @
     ''      '' @ runs_xml @ ''\<newline>'' @
     ''    </w:p>''\<close>

definition item_para :: "Converter \<Rightarrow> int \<Rightarrow> bool \<Rightarrow> int \<Rightarrow> RunStyle list \<Rightarrow> string" where
  "item_para c level isOrdered itemNum contentRuns =
     (let indent = 360 + level * 360;
          fontSize = go_int (FontSize (opts c) * 2);
          bullet = list_bullet isOrdered itemNum
      in list_item_para indent fontSize bullet (wrapRuns c contentRuns fontSize))"

text \<open>\<open>addList_loop\<close> is the loop of \<^verbatim>\<open>addList\<close> over the children of a list, with the
  running \<^verbatim>\<open>itemNum\<close>; \<open>addListItem_loop\<close> is the loop of \<^verbatim>\<open>addListItem\<close> over the
  children of an item, with the runs collected so far. Meeting a nested list, it appends the
  item's paragraph, calls \<^verbatim>\<open>addList\<close> one level deeper and returns.\<close>

fun addList_loop :: "Converter \<Rightarrow> node list \<Rightarrow> int \<Rightarrow> bool \<Rightarrow> int \<Rightarrow> Converter"
  and addListItem_loop ::
    "Converter \<Rightarrow> node list \<Rightarrow> int \<Rightarrow> bool \<Rightarrow> int \<Rightarrow> RunStyle list \<Rightarrow> Converter" where
  "addList_loop c [] level isOrdered itemNum = c"
| "addList_loop c (Node k cs # rest) level isOrdered itemNum =
     (case k of
        ast_ListItem \<Rightarrow>
          addList_loop (addListItem_loop c cs level isOrdered itemNum []) rest level isOrdered
            (itemNum + 1)
      | _ \<Rightarrow> addList_loop c rest level isOrdered itemNum)"
| "addListItem_loop c [] level isOrdered itemNum contentRuns =
     append_paragraph c (item_para c level isOrdered itemNum contentRuns)"
| "addListItem_loop c (Node k cs # rest) level isOrdered itemNum contentRuns =
     (case k of
        ast_TextBlock \<Rightarrow>
          addListItem_loop c rest level isOrdered itemNum (contentRuns @ processInlineNodes cs)
      | ast_Paragraph \<Rightarrow>
          addListItem_loop c rest level isOrdered itemNum (contentRuns @ processInlineNodes cs)
      | ast_List ordered \<Rightarrow>
          addList_loop (append_paragraph c (item_para c level isOrdered itemNum contentRuns))
            cs (level + 1) ordered 1
      | _ \<Rightarrow> addListItem_loop c rest level isOrdered itemNum contentRuns)"

definition addList :: "Converter \<Rightarrow> bool \<Rightarrow> node list \<Rightarrow> int \<Rightarrow> Converter" where
  "addList c node_IsOrdered node_children level = addList_loop c node_children level node_IsOrdered 1"

definition addListItem ::
    "Converter \<Rightarrow> node list \<Rightarrow> int \<Rightarrow> bool \<Rightarrow> int \<Rightarrow> Converter" where
  "addListItem c node_children level isOrdered itemNum =
     addListItem_loop c node_children level isOrdered itemNum []"

subsection \<open>Block quotes and rules\<close>

definition blockquote_para :: "string \<Rightarrow> string" where
  \<open>blockquote_para runs_xml =
     ''<w:p>\<newline>'' @
     ''      <w:pPr>\<newline>'' @
     ''        <w:ind w:left="720"/>\<newline>'' @
     ''        <w:pBdr>\<newline>'' @
     ''          <w:left w:val="single" w:sz="24" w:space="4" w:color="DFE2E5"/>\<newline>'' @
     ''        </w:pBdr>\<newline>'' @
     ''        <w:spacing w:after="160"/>\<newline>'' @
     ''      </w:pPr>\<newline>'' @
     ''      '' @ runs_xml @ ''\<newline>'' @
     ''    </w:p>''\<close>

fun addBlockquote :: "Converter \<Rightarrow> node list \<Rightarrow> Converter" where
  "addBlockquote c [] = c"
| "addBlockquote c (Node k cs # rest) =
     (case k of
        ast_Paragraph \<Rightarrow>
          (let runs = processInlineNodes cs;
               runs = map (\<lambda>r. r\<lparr>Italic := True, Color := ''6A737D''\<rparr>) runs
           in addBlockquote
                (append_paragraph c
                   (blockquote_para (wrapRuns c runs (go_int (FontSize (opts c) * 2)))))
                rest)
      | _ \<Rightarrow> addBlockquote c rest)"

definition rule_para :: string where
  \<open>rule_para =
     ''<w:p>\<newline>'' @
     ''      <w:pPr>\<newline>'' @
     ''        <w:pBdr>\<newline>'' @
     ''          <w:bottom w:val="single" w:sz="6" w:space="1" w:color="E1E4E8"/>\<newline>'' @
     ''        </w:pBdr>\<newline>'' @
     ''        <w:spacing w:before="240" w:after="240"/>\<newline>'' @
     ''      </w:pPr>\<newline>'' @
     ''    </w:p>''\<close>

definition addHorizontalRule :: "Converter \<Rightarrow> Converter" where
  "addHorizontalRule c = append_paragraph c rule_para"

subsection \<open>processNode\<close>

text \<open>The loop over the children of a node; the argument is the list of children.\<close>

fun processNode :: "Converter \<Rightarrow> node list \<Rightarrow> Converter" where
  "processNode c [] = c"
| "processNode c (Node k cs # rest) =
     processNode
       (case k of
          ast_Heading lvl \<Rightarrow> addHeading c lvl (Node k cs)
        | ast_Paragraph \<Rightarrow> addParagraph c cs
        | ast_FencedCodeBlock ls \<Rightarrow> addCodeBlock c ls
        | ast_CodeBlock ls \<Rightarrow> addCodeBlock c ls
        | ast_List ordered \<Rightarrow> addList c ordered cs 0
        | ast_Blockquote \<Rightarrow> addBlockquote c cs
        | ast_ThematicBreak \<Rightarrow> addHorizontalRule c
        | ast_HTMLBlock \<Rightarrow> c
        | _ \<Rightarrow> processNode c cs)
       rest"

subsection \<open>createDocx\<close>

definition getPageDimensions :: "Converter \<Rightarrow> int \<times> int" where
  "getPageDimensions c =
     (let s = ToLower (PageSize (opts c)) in
      if s = ''a4'' then (11906, 16838)
      else if s = ''legal'' then (12240, 20160)
      else (12240, 15840))"

definition contentTypes :: string where
  \<open>contentTypes =
     ''<?xml version="1.0" encoding="UTF-8" standalone="yes"?>\<newline>'' @
     ''<Types xmlns="http://schemas.openxmlformats.org/package/2006/content-types">\<newline>'' @
     ''  <Default Extension="rels" ContentType="application/vnd.openxmlformats-package.relationships+xml"/>\<newline>'' @
     ''  <Default Extension="xml" ContentType="application/xml"/>\<newline>'' @
     ''  <Override PartName="/word/document.xml" ContentType="application/vnd.openxmlformats-officedocument.wordprocessingml.document.main+xml"/>\<newline>'' @
     ''  <Override PartName="/word/styles.xml" ContentType="application/vnd.openxmlformats-officedocument.wordprocessingml.styles+xml"/>\<newline>'' @
     ''</Types>''\<close>

definition rels :: string where
  \<open>rels =
     ''<?xml version="1.0" encoding="UTF-8" standalone="yes"?>\<newline>'' @
     ''<Relationships xmlns="http://schemas.openxmlformats.org/package/2006/relationships">\<newline>'' @
     ''  <Relationship Id="rId1" Type="http://schemas.openxmlformats.org/officeDocument/2006/relationships/officeDocument" Target="word/document.xml"/>\<newline>'' @
     ''</Relationships>''\<close>

definition docRels :: string where
  \<open>docRels =
     ''<?xml version="1.0" encoding="UTF-8" standalone="yes"?>\<newline>'' @
     ''<Relationships xmlns="http://schemas.openxmlformats.org/package/2006/relationships">\<newline>'' @
     ''  <Relationship Id="rId1" Type="http://schemas.openxmlformats.org/officeDocument/2006/relationships/styles" Target="styles.xml"/>\<newline>'' @
     ''</Relationships>''\<close>

definition styles :: "Converter \<Rightarrow> string" where
  \<open>styles c =
     (let defaultFontSize = go_int (FontSize (opts c) * 2) in
     ''<?xml version="1.0" encoding="UTF-8" standalone="yes"?>\<newline>'' @
     ''<w:styles xmlns:w="http://schemas.openxmlformats.org/wordprocessingml/2006/main">\<newline>'' @
     ''  <w:docDefaults>\<newline>'' @
     ''    <w:rPrDefault>\<newline>'' @
     ''      <w:rPr>\<newline>'' @
     ''        <w:rFonts w:ascii="'' @ FontFamily (opts c) @ ''" w:hAnsi="'' @
     FontFamily (opts c) @ ''"/>\<newline>'' @
     ''        <w:sz w:val="'' @ itoa defaultFontSize @ ''"/>\<newline>'' @
     ''        <w:szCs w:val="'' @ itoa defaultFontSize @ ''"/>\<newline>'' @
     ''      </w:rPr>\<newline>'' @
     ''    </w:rPrDefault>\<newline>'' @
     ''  </w:docDefaults>\<newline>'' @
     ''</w:styles>'')\<close>

definition document :: "Converter \<Rightarrow> string" where
  \<open>document c =
     (let pageWidth = fst (getPageDimensions c);
          pageHeight = snd (getPageDimensions c);
          marginTop = go_int (MarginTop (opts c) * 1440);
          marginBottom = go_int (MarginBottom (opts c) * 1440);
          marginLeft = go_int (MarginLeft (opts c) * 1440);
          marginRight = go_int (MarginRight (opts c) * 1440);
          documentContent = Join (paragraphs c) ''\<newline>    ''
      in
     ''<?xml version="1.0" encoding="UTF-8" standalone="yes"?>\<newline>'' @
     ''<w:document xmlns:w="http://schemas.openxmlformats.org/wordprocessingml/2006/main">\<newline>'' @
     ''  <w:body>\<newline>'' @
     ''    '' @ documentContent @ ''\<newline>'' @
     ''    <w:sectPr>\<newline>'' @
     ''      <w:pgSz w:w="'' @ itoa pageWidth @ ''" w:h="'' @ itoa pageHeight @
     ''"/>\<newline>'' @
     ''      <w:pgMar w:top="'' @ itoa marginTop @ ''" w:right="'' @ itoa marginRight @
     ''" w:bottom="'' @ itoa marginBottom @ ''" w:left="'' @ itoa marginLeft @
     ''" w:header="720" w:footer="720" w:gutter="0"/>\<newline>'' @
     ''    </w:sectPr>\<newline>'' @
     ''  </w:body>\<newline>'' @
     ''</w:document>'')\<close>

text \<open>A zip archive is the list of its entries, name and content, in the order they are
  added. \<^verbatim>\<open>addFileToZip\<close> writes into a buffer in memory, which does not fail;
  \<^verbatim>\<open>os.WriteFile\<close> belongs to the environment and is a parameter: it is given the path and
  the archive and answers with an error or with none.\<close>

type_synonym archive = "(string \<times> string) list"

datatype error = Error string

definition addFileToZip :: "archive \<Rightarrow> string \<Rightarrow> string \<Rightarrow> archive" where
  "addFileToZip w name content = w @ [(name, content)]"

definition docx_archive :: "Converter \<Rightarrow> archive" where
  "docx_archive c =
     (let w = [];
          w = addFileToZip w ''[Content_Types].xml'' contentTypes;
          w = addFileToZip w ''_rels/.rels'' rels;
          w = addFileToZip w ''word/_rels/document.xml.rels'' docRels;
          w = addFileToZip w ''word/styles.xml'' (styles c);
          w = addFileToZip w ''word/document.xml'' (document c)
      in w)"

definition createDocx ::
    "(string \<Rightarrow> archive \<Rightarrow> error option) \<Rightarrow> Converter \<Rightarrow> string \<Rightarrow> error option" where
  "createDocx WriteFile c outputPath = WriteFile outputPath (docx_archive c)"

text \<open>\<^verbatim>\<open>Convert\<close>: the goldmark parser is a parameter, \<open>parse\<close>, from the Markdown bytes to
  the root of the tree. The result is the converter after the walk together with the error,
  if any.\<close>

definition Convert ::
    "(string \<Rightarrow> node) \<Rightarrow> (string \<Rightarrow> archive \<Rightarrow> error option) \<Rightarrow> Converter \<Rightarrow> string \<Rightarrow> string
      \<Rightarrow> Converter \<times> error option" where
  "Convert parse WriteFile c markdown outputPath =
     (let root = parse markdown;
          c = c\<lparr>paragraphs := []\<rparr>;
          c = processNode c (children root)
      in case createDocx WriteFile c outputPath of
           Some (Error e) \<Rightarrow> (c, Some (Error (''failed to create document: '' @ e)))
         | None \<Rightarrow> (c, None))"

section \<open>Notions used to state the properties\<close>












text \<open>Further notions: an example configuration, the frame property of the functions
  that append to \<^verbatim>\<open>c.paragraphs\<close>, one step of \<^verbatim>\<open>processNode\<close>, and the kinds that have a
  translating case in its type switch.\<close>

definition example_opts :: Options where
  "example_opts = \<lparr>FontFamily = ''Calibri'', FontSize = 11, CodeFontFamily = ''Courier New'',
     CodeFontSize = 10, MarginTop = 1, MarginBottom = 1, MarginLeft = 1, MarginRight = 1,
     PageSize = ''Letter''\<rparr>"

definition framed :: "(Converter \<Rightarrow> Converter) \<Rightarrow> bool" where
  "framed f \<longleftrightarrow>
     (\<forall>c. opts (f c) = opts c \<and> paragraphs (f c) = paragraphs c @ paragraphs (f (New (opts c))))"

definition block_step :: "kind \<Rightarrow> node list \<Rightarrow> Converter \<Rightarrow> Converter" where
  "block_step k cs c =
     (case k of
        ast_Heading lvl \<Rightarrow> addHeading c lvl (Node k cs)
      | ast_Paragraph \<Rightarrow> addParagraph c cs
      | ast_FencedCodeBlock ls \<Rightarrow> addCodeBlock c ls
      | ast_CodeBlock ls \<Rightarrow> addCodeBlock c ls
      | ast_List ordered \<Rightarrow> addList c ordered cs 0
      | ast_Blockquote \<Rightarrow> addBlockquote c cs
      | ast_ThematicBreak \<Rightarrow> addHorizontalRule c
      | ast_HTMLBlock \<Rightarrow> c
      | _ \<Rightarrow> processNode c cs)"


text \<open>The runs an item draws from its own children: those of its text blocks and
  paragraphs.\<close>

definition is_list :: "node \<Rightarrow> bool" where
  "is_list n = (case node_kind n of ast_List ordered \<Rightarrow> True | _ \<Rightarrow> False)"

definition own_runs_of :: "node \<Rightarrow> RunStyle list" where
  "own_runs_of n =
     (case node_kind n of
        ast_TextBlock \<Rightarrow> processInlineNodes (children n)
      | ast_Paragraph \<Rightarrow> processInlineNodes (children n)
      | _ \<Rightarrow> [])"

definition own_runs :: "node list \<Rightarrow> RunStyle list" where
  "own_runs ns = concat (map own_runs_of ns)"


fun set_dest :: "(string \<Rightarrow> string) \<Rightarrow> node \<Rightarrow> node" where
  "set_dest f (Node k cs) =
     Node (case k of ast_Link dest \<Rightarrow> ast_Link (f dest) | _ \<Rightarrow> k) (map (set_dest f) cs)"

fun attr_values :: "string \<Rightarrow> string \<Rightarrow> string list" where
  "attr_values key [] = []"
| "attr_values key (c # cs) =
     (if take (length key + 2) (c # cs) = key @ [CHR ''='', CHR 0x22]
      then takeWhile (\<lambda>x. x \<noteq> CHR 0x22) (drop (length key + 2) (c # cs)) # attr_values key cs
      else attr_values key cs)"

fun rels_base :: "string \<Rightarrow> string" where
  "rels_base [] = []"
| "rels_base (c # cs) = (if take 6 (c # cs) = ''_rels/'' then [] else c # rels_base cs)"

definition is_rels :: "string \<Rightarrow> bool" where
  "is_rels name \<longleftrightarrow> drop (length name - 5) name = ''.rels''"

definition entry_references :: "string \<times> string \<Rightarrow> string list" where
  "entry_references e =
     (if is_rels (fst e) then map (\<lambda>t. rels_base (fst e) @ t) (attr_values '' Target'' (snd e))
      else if fst e = ''[Content_Types].xml'' then map (drop 1) (attr_values '' PartName'' (snd e))
      else [])"

definition referenced_parts :: "archive \<Rightarrow> string list" where
  "referenced_parts w = concat (map entry_references w)"


section \<open>Escaping\<close>






























lemmas esc_eval = escapeXML_def escapeText_def esc_step_def esc_of_def DecodeRune_def
  decode_multi_def first_size_def accept_lo_def accept_hi_def byte_def isInCharacterRange_def
  RuneError_def escFFFD_def Let_def


section \<open>Evaluation and frames\<close>

lemma nat_digits_small: "n < 10 \<Longrightarrow> nat_digits n = [char_of (48 + n)]"
  by (subst nat_digits.simps) simp

lemma nat_digits_big:
  "\<not> n < 10 \<Longrightarrow> nat_digits n = nat_digits (n div 10) @ [char_of (48 + n mod 10)]"
  by (subst nat_digits.simps) simp

lemma itoa_vals:
  "itoa 20 = ''20''" "itoa 22 = ''22''" "itoa 360 = ''360''" "itoa 48 = ''48''" "itoa 40 = ''40''"
  "itoa 720 = ''720''"
  by (simp_all add: itoa_def nat_digits_small nat_digits_big char_of_eq_iff)

lemma go_int_vals: "go_int (numeral k) = numeral k" "go_int 0 = 0" "go_int 1 = 1"
  by (simp_all add: go_int_def)

lemma addCodeLines_paragraphs:
  "paragraphs (addCodeLines c sz ls) =
     paragraphs c @ map (\<lambda>l. code_line_para sz (if l = [] then '' '' else l)) ls"
  by (induction ls arbitrary: c) (simp_all add: append_paragraph_def)

lemma addCodeLines_opts: "opts (addCodeLines c sz ls) = opts c"
  by (induction ls arbitrary: c) (simp_all add: append_paragraph_def)

lemma addCodeBlock_paragraphs:
  "paragraphs (addCodeBlock c ls) =
     paragraphs c
     @ map (\<lambda>l. code_line_para (go_int (CodeFontSize (opts c) * 2)) (if l = [] then '' '' else l))
         (Split_nl (TrimRight_nl (concat ls)))
     @ [code_spacer]"
  by (simp add: addCodeBlock_def Let_def append_paragraph_def addCodeLines_paragraphs)

lemma TrimRight_space_Nil: "TrimRight_space [] = []"
  by (subst TrimRight_space.simps) simp

lemma TrimRight_space_drop:
  "s \<noteq> [] \<Longrightarrow> IsSpace (fst (DecodeLastRune s)) \<Longrightarrow>
   TrimRight_space s = TrimRight_space (take (length s - snd (DecodeLastRune s)) s)"
  by (subst TrimRight_space.simps) simp

lemma TrimRight_space_keep:
  "s \<noteq> [] \<Longrightarrow> \<not> IsSpace (fst (DecodeLastRune s)) \<Longrightarrow> TrimRight_space s = s"
  by (subst TrimRight_space.simps) simp

lemmas trim_eval = TrimSpace_def TrimLeft_space_def TrimRight_space_Nil TrimRight_space_drop
  TrimRight_space_keep DecodeLastRune_def last_start_def RuneStart_def IsSpace_def
  DecodeRune_def decode_multi_def first_size_def accept_lo_def accept_hi_def byte_def
  RuneError_def Let_def is_s_def extractText_def

lemma c5a: \<open>wrapRuns (New example_opts) (processInlineNodes [Node ast_CodeSpan [Node (ast_Text ''x'') []]]) 22 =
  ''<w:r><w:rPr><w:highlight w:val="lightGray"/><w:rFonts w:ascii="Consolas" w:hAnsi="Consolas"/><w:sz w:val="20"/><w:szCs w:val="20"/></w:rPr><w:t xml:space="preserve">x</w:t></w:r>''\<close>
  by (simp add: wrapRuns_def wrapRun_def New_def example_opts_def RunStyle0_def go_int_vals itoa_vals esc_eval trim_eval)

lemma c5b: "paragraphs (addCodeBlock (New example_opts) [''x\<newline>'']) = [code_line_para 20 ''x'', code_spacer]"
  by (simp add: addCodeBlock_paragraphs New_def example_opts_def go_int_vals TrimRight_nl_def)

lemma opts_New: "opts (New os) = os"
  by (simp add: New_def)

lemma paragraphs_New: "paragraphs (New os) = []"
  by (simp add: New_def)

lemma framed_opts: "framed f \<Longrightarrow> opts (f c) = opts c"
  unfolding framed_def by (erule allE[of _ c]) (erule conjunct1)

lemma framed_paragraphs:
  "framed f \<Longrightarrow> paragraphs (f c) = paragraphs c @ paragraphs (f (New (opts c)))"
  unfolding framed_def by (erule allE[of _ c]) (erule conjunct2)

lemma framedI:
  assumes "\<And>c. opts (f c) = opts c"
    and "\<And>c. paragraphs (f c) = paragraphs c @ paragraphs (f (New (opts c)))"
  shows "framed f"
  unfolding framed_def by (intro allI conjI) (rule assms)+

lemma framed_id: "framed (\<lambda>c. c)"
  by (rule framedI) (simp_all add: paragraphs_New)

lemma framed_append:
  assumes "\<And>c c'. opts c = opts c' \<Longrightarrow> p c = p c'"
  shows "framed (\<lambda>c. append_paragraph c (p c))"
proof (rule framedI)
  fix c
  show "opts (append_paragraph c (p c)) = opts c" by (simp add: append_paragraph_def)
  have "p (New (opts c)) = p c" by (rule assms) (rule opts_New)
  then show "paragraphs (append_paragraph c (p c)) =
        paragraphs c @ paragraphs (append_paragraph (New (opts c)) (p (New (opts c))))"
    by (simp add: append_paragraph_def paragraphs_New)
qed

lemma framed_comp:
  assumes "framed f" "framed g"
  shows "framed (\<lambda>c. g (f c))"
proof (rule framedI)
  fix c
  have o1: "opts (f x) = opts x" for x by (rule framed_opts[OF assms(1)])
  have o2: "opts (g x) = opts x" for x by (rule framed_opts[OF assms(2)])
  show "opts (g (f c)) = opts c" by (simp only: o1 o2)
  have g1: "paragraphs (g (f c)) = paragraphs (f c) @ paragraphs (g (New (opts c)))"
    using framed_paragraphs[OF assms(2), of "f c"] by (simp only: o1)
  have f1: "paragraphs (f c) = paragraphs c @ paragraphs (f (New (opts c)))"
    by (rule framed_paragraphs[OF assms(1)])
  have g2: "paragraphs (g (f (New (opts c)))) =
            paragraphs (f (New (opts c))) @ paragraphs (g (New (opts c)))"
    using framed_paragraphs[OF assms(2), of "f (New (opts c))"] by (simp only: o1 opts_New)
  show "paragraphs (g (f c)) = paragraphs c @ paragraphs (g (f (New (opts c))))"
    by (simp only: g1 f1 g2 append_assoc)
qed

lemma wrapRuns_cong: "opts c = opts c' \<Longrightarrow> wrapRuns c runs sz = wrapRuns c' runs sz"
  by (simp add: wrapRuns_def)

lemma item_para_cong: "opts c = opts c' \<Longrightarrow> item_para c l ord n rs = item_para c' l ord n rs"
  by (simp add: item_para_def wrapRuns_def)

lemma framed_item_para:
  "framed (\<lambda>c. append_paragraph c (item_para c level isOrdered itemNum contentRuns))"
  using framed_append[of "\<lambda>c. item_para c level isOrdered itemNum contentRuns"] item_para_cong
  by blast

lemma framed_list:
  fixes c0 :: Converter
  shows "framed (\<lambda>c. addList_loop c ns l ord n)"
    and "framed (\<lambda>c. addListItem_loop c ms l' ord' n' rs)"
proof (induction c0 ns l ord n and c0 ms l' ord' n' rs rule: addList_loop_addListItem_loop.induct)
  case (1 c level isOrdered itemNum)
  show ?case by (simp add: framed_id)
next
  case (2 c k cs rest level isOrdered itemNum)
  show ?case
  proof (cases "k = ast_ListItem")
    case True
    have i1: "framed (\<lambda>c. addListItem_loop c cs level isOrdered itemNum [])"
      by (rule 2, rule True)
    have i2: "framed (\<lambda>c. addList_loop c rest level isOrdered (itemNum + 1))"
      by (rule 2, rule True)
    have eq: "addList_loop c' (Node k cs # rest) level isOrdered itemNum
             = addList_loop (addListItem_loop c' cs level isOrdered itemNum []) rest level isOrdered (itemNum + 1)" for c'
      using True by simp
    show ?thesis using framed_comp[OF i1 i2] by (simp only: eq)
  next
    case False
    have eq: "addList_loop c' (Node k cs # rest) level isOrdered itemNum
             = addList_loop c' rest level isOrdered itemNum" for c'
      using False by (cases k) simp_all
    have fr: "framed (\<lambda>c. addList_loop c rest level isOrdered itemNum)"
      using False by (cases k) (simp_all add: 2)
    show ?thesis using fr by (simp only: eq)
  qed
next
  case (3 c level isOrdered itemNum contentRuns)
  show ?case using framed_item_para by simp
next
  case (4 c k cs rest level isOrdered itemNum contentRuns)
  consider (tb) "k = ast_TextBlock \<or> k = ast_Paragraph" | (li) ordered where "k = ast_List ordered"
    | (other) "k \<noteq> ast_TextBlock" "k \<noteq> ast_Paragraph" "\<forall>ordered. k \<noteq> ast_List ordered"
    by blast
  then show ?case
  proof cases
    case tb
    have eq: "addListItem_loop c' (Node k cs # rest) level isOrdered itemNum contentRuns
             = addListItem_loop c' rest level isOrdered itemNum (contentRuns @ processInlineNodes cs)" for c'
      using tb by auto
    have fr: "framed (\<lambda>c. addListItem_loop c rest level isOrdered itemNum (contentRuns @ processInlineNodes cs))"
      using tb by (auto simp: 4)
    show ?thesis using fr by (simp only: eq)
  next
    case li
    have eq: "addListItem_loop c' (Node k cs # rest) level isOrdered itemNum contentRuns
             = addList_loop (append_paragraph c' (item_para c' level isOrdered itemNum contentRuns))
                 cs (level + 1) ordered 1" for c'
      using li by simp
    have fr: "framed (\<lambda>c. addList_loop c cs (level + 1) ordered 1)"
      by (rule 4, rule li)
    show ?thesis using framed_comp[OF framed_item_para fr] by (simp only: eq)
  next
    case other
    have eq: "addListItem_loop c' (Node k cs # rest) level isOrdered itemNum contentRuns
             = addListItem_loop c' rest level isOrdered itemNum contentRuns" for c'
      using other by (cases k) auto
    have fr: "framed (\<lambda>c. addListItem_loop c rest level isOrdered itemNum contentRuns)"
      using other by (cases k) (auto simp: 4)
    show ?thesis using fr by (simp only: eq)
  qed
qed

lemma framed_const: "framed (\<lambda>c. append_paragraph c para)"
  using framed_append[of "\<lambda>c. para"] by simp

lemma framed_addHeading: "framed (\<lambda>c. addHeading c lvl n)"
  unfolding addHeading_def Let_def by (rule framed_const)

lemma framed_addHorizontalRule: "framed addHorizontalRule"
  using framed_const[of rule_para] by (simp add: addHorizontalRule_def[abs_def])

lemma framed_addParagraph: "framed (\<lambda>c. addParagraph c cs)"
proof -
  have "framed (\<lambda>c. append_paragraph c
          (paragraph_para (wrapRuns c (processInlineNodes cs) (go_int (FontSize (opts c) * 2)))))"
    by (rule framed_append) (simp add: wrapRuns_def)
  then show ?thesis by (simp add: addParagraph_def Let_def)
qed

lemma addCodeBlock_opts: "opts (addCodeBlock c ls) = opts c"
  by (simp add: addCodeBlock_def Let_def append_paragraph_def addCodeLines_opts)

lemma framed_addCodeBlock: "framed (\<lambda>c. addCodeBlock c ls)"
  by (rule framedI) (simp_all add: addCodeBlock_opts addCodeBlock_paragraphs opts_New paragraphs_New)

lemma framed_addBlockquote:
  fixes c0 :: Converter
  shows "framed (\<lambda>c. addBlockquote c ns)"
proof (induction c0 ns rule: addBlockquote.induct)
  case (1 c)
  show ?case by (simp add: framed_id)
next
  case (2 c k cs rest)
  show ?case
  proof (cases "k = ast_Paragraph")
    case True
    define p where "p = (\<lambda>c. blockquote_para (wrapRuns c
        (map (\<lambda>r. r\<lparr>Italic := True, Color := ''6A737D''\<rparr>) (processInlineNodes cs))
        (go_int (FontSize (opts c) * 2))))"
    have a: "framed (\<lambda>c. append_paragraph c (p c))"
      by (rule framed_append) (simp add: p_def wrapRuns_def)
    have b: "framed (\<lambda>c. addBlockquote c rest)"
      using True by (simp add: 2)
    have eq: "addBlockquote c' (Node k cs # rest) = addBlockquote (append_paragraph c' (p c')) rest" for c'
      using True by (simp add: p_def Let_def)
    show ?thesis using framed_comp[OF a b] by (simp only: eq)
  next
    case False
    have eq: "addBlockquote c' (Node k cs # rest) = addBlockquote c' rest" for c'
      using False by (cases k) simp_all
    have fr: "framed (\<lambda>c. addBlockquote c rest)"
      using False by (cases k) (simp_all add: 2)
    show ?thesis using fr by (simp only: eq)
  qed
qed

lemma processNode_step: "processNode c (Node k cs # rest) = processNode (block_step k cs c) rest"
  by (simp add: block_step_def)

lemma framed_processNode:
  fixes c0 :: Converter
  shows "framed (\<lambda>c. processNode c ns)"
proof (induction c0 ns rule: processNode.induct)
  case (1 c)
  show ?case by (simp add: framed_id)
next
  case (2 c k cs rest)
  have inner: "framed (block_step k cs)"
  proof (cases k)
    case (ast_Heading lvl)
    then show ?thesis using framed_addHeading[of lvl "Node k cs"] by (simp add: block_step_def[abs_def])
  next
    case ast_Paragraph
    then show ?thesis using framed_addParagraph[of cs] by (simp add: block_step_def[abs_def])
  next
    case (ast_FencedCodeBlock ls)
    then show ?thesis using framed_addCodeBlock[of ls] by (simp add: block_step_def[abs_def])
  next
    case (ast_CodeBlock ls)
    then show ?thesis using framed_addCodeBlock[of ls] by (simp add: block_step_def[abs_def])
  next
    case (ast_List ordered)
    then show ?thesis using framed_list(1)[of cs 0 ordered 1]
      by (simp add: block_step_def[abs_def] addList_def)
  next
    case ast_Blockquote
    then show ?thesis using framed_addBlockquote[of cs] by (simp add: block_step_def[abs_def])
  next
    case ast_ThematicBreak
    then show ?thesis using framed_addHorizontalRule
      by (simp add: block_step_def[abs_def] addHorizontalRule_def[abs_def])
  next
    case ast_HTMLBlock
    then show ?thesis using framed_id by (simp add: block_step_def[abs_def])
  qed (simp_all add: block_step_def[abs_def] 2)
  have outer: "framed (\<lambda>c. processNode c rest)" by (rule 2)
  show ?case using framed_comp[OF inner outer] by (simp only: processNode_step)
qed




section \<open>List items\<close>

lemma addListItem_loop_nested:
  assumes "\<forall>x\<in>set pre. \<not> is_list x"
  shows "addListItem_loop c (pre @ Node (ast_List ordered) sub # post) level isOrdered itemNum acc
       = addList_loop (append_paragraph c (item_para c level isOrdered itemNum (acc @ own_runs pre)))
           sub (level + 1) ordered 1"
  using assms
proof (induction pre arbitrary: acc)
  case Nil
  show ?case by (simp add: own_runs_def)
next
  case (Cons a pre)
  obtain k cs where a: "a = Node k cs" by (cases a)
  have nl: "\<forall>ordered. k \<noteq> ast_List ordered" using Cons.prems a by (auto simp: is_list_def)
  have ih: "addListItem_loop c (pre @ Node (ast_List ordered) sub # post) level isOrdered itemNum acc'
       = addList_loop (append_paragraph c (item_para c level isOrdered itemNum (acc' @ own_runs pre)))
           sub (level + 1) ordered 1" for acc'
    using Cons by simp
  show ?case using nl
    by (cases k) (auto simp: a ih own_runs_def own_runs_of_def)
qed

lemma addListItem_loop_plain:
  assumes "\<forall>x\<in>set ns. \<not> is_list x"
  shows "addListItem_loop c ns level isOrdered itemNum acc
       = append_paragraph c (item_para c level isOrdered itemNum (acc @ own_runs ns))"
  using assms
proof (induction ns arbitrary: acc)
  case Nil
  show ?case by (simp add: own_runs_def)
next
  case (Cons a ns)
  obtain k cs where a: "a = Node k cs" by (cases a)
  have nl: "\<forall>ordered. k \<noteq> ast_List ordered" using Cons.prems a by (auto simp: is_list_def)
  have ih: "addListItem_loop c ns level isOrdered itemNum acc'
       = append_paragraph c (item_para c level isOrdered itemNum (acc' @ own_runs ns))" for acc'
    using Cons by simp
  show ?case using nl
    by (cases k) (auto simp: a ih own_runs_def own_runs_of_def)
qed

section \<open>Code blocks\<close>










section \<open>Link destinations and the archive\<close>




lemma code_span_text_set_dest: "code_span_text (map (set_dest f) ns) = code_span_text ns"
proof (induction ns)
  case Nil
  show ?case by simp
next
  case (Cons a ns)
  obtain k cs where a: "a = Node k cs" by (cases a)
  show ?case using Cons by (cases k) (simp_all add: a)
qed

lemma walk_text_set_dest:
  "walk_text (set_dest f n) = walk_text n"
  "walk_texts (map (set_dest f) ns) = walk_texts ns"
proof (induction n and ns rule: walk_text_walk_texts.induct)
  case (1 k cs)
  then show ?case by (cases k) (simp_all add: code_span_text_set_dest)
next
  case 2
  show ?case by simp
next
  case (3 n ns)
  then show ?case by simp
qed

lemma extractText_set_dest: "extractText (set_dest f n) = extractText n"
  by (simp add: extractText_def walk_text_set_dest)









lemma set_dest_kind:
  "\<forall>dest. k \<noteq> ast_Link dest \<Longrightarrow> set_dest f (Node k cs) = Node k (map (set_dest f) cs)"
  by (cases k) auto







lemma refs_contentTypes:
  "entry_references (''[Content_Types].xml'', contentTypes) = [''word/document.xml'', ''word/styles.xml'']"
  by (simp add: entry_references_def is_rels_def contentTypes_def)

lemma refs_rels: "entry_references (''_rels/.rels'', rels) = [''word/document.xml'']"
  by (simp add: entry_references_def is_rels_def rels_def)

lemma refs_docRels:
  "entry_references (''word/_rels/document.xml.rels'', docRels) = [''word/styles.xml'']"
  by (simp add: entry_references_def is_rels_def docRels_def)

lemma refs_other:
  "entry_references (''word/styles.xml'', x) = []" "entry_references (''word/document.xml'', y) = []"
  by (simp_all add: entry_references_def is_rels_def)

lemma referenced_parts_docx:
  "referenced_parts (docx_archive c)
     = [''word/document.xml'', ''word/styles.xml'', ''word/document.xml'', ''word/styles.xml'']"
  by (simp add: referenced_parts_def docx_archive_def addFileToZip_def refs_contentTypes refs_rels
      refs_docRels refs_other)

lemma docx_names:
  "map fst (docx_archive c)
     = [''[Content_Types].xml'', ''_rels/.rels'', ''word/_rels/document.xml.rels'',
        ''word/styles.xml'', ''word/document.xml'']"
  by (simp add: docx_archive_def addFileToZip_def)

section \<open>Whitespace\<close>

lemma is_s_space: "is_s (CHR 0x20)"
  by (simp add: is_s_def)



















section \<open>Text fields and the ordered list of the scenario\<close>


lemma itoa_small: "itoa 1 = ''1''" "itoa 2 = ''2''" "itoa 3 = ''3''"
  by (simp_all add: itoa_def nat_digits_small char_of_eq_iff)

lemma ordered_scenario:
  "paragraphs (processNode (New example_opts)
      [Node (ast_List True)
         [Node ast_ListItem [Node ast_TextBlock [Node (ast_Text ''a'') []]],
          Node ast_ListItem [Node ast_TextBlock [Node (ast_Text ''b'') []],
             Node (ast_List True) [Node ast_ListItem [Node ast_TextBlock [Node (ast_Text ''nested'') []]]]],
          Node ast_ListItem [Node ast_TextBlock [Node (ast_Text ''c'') []]]]])
     = [list_item_para 360 22 ''1. '' (wrapRuns (New example_opts) [RunStyle0\<lparr>Text := ''a''\<rparr>] 22),
        list_item_para 360 22 ''2. '' (wrapRuns (New example_opts) [RunStyle0\<lparr>Text := ''b''\<rparr>] 22),
        list_item_para 720 22 ''1. '' (wrapRuns (New example_opts) [RunStyle0\<lparr>Text := ''nested''\<rparr>] 22),
        list_item_para 360 22 ''3. '' (wrapRuns (New example_opts) [RunStyle0\<lparr>Text := ''c''\<rparr>] 22)]"
  by (simp add: addList_def item_para_def list_bullet_def append_paragraph_def New_def
        example_opts_def go_int_vals Let_def wrapRuns_def itoa_small)

section \<open>The claims\<close>




text \<open>C3: the code differs from the claim. For an unordered list the prefix written is the
  literal of the source file, whose eight bytes are the UTF-8 of U+00E2 U+20AC U+00A2 and a
  space (a bullet saved in the wrong encoding), not the bullet U+2022 and a space. The
  bytes pass through \<open>escapeXML\<close> unchanged into the item's fragment. The ordered list of
  the scenario is numbered 1, 2, 3, its nested list starts again at 1, and the indent is
  360 for level 0 and 720 for level 1.\<close>

theorem unordered_bullet_bytes:
  "paragraphs (processNode (New example_opts)
      [Node (ast_List False) [Node ast_ListItem [Node ast_TextBlock [Node (ast_Text ''a'') []]]]])
     = [list_item_para 360 22 bullet_literal
          (wrapRuns (New example_opts) [RunStyle0\<lparr>Text := ''a''\<rparr>] 22)]
   \<and> escapeXML bullet_literal = bullet_literal
   \<and> bullet_literal = [CHR 0xC3, CHR 0xA2, CHR 0xE2, CHR 0x82, CHR 0xAC, CHR 0xC2, CHR 0xA2, CHR 0x20]
   \<and> bullet_literal \<noteq> [CHR 0xE2, CHR 0x80, CHR 0xA2, CHR 0x20]
   \<and> paragraphs (processNode (New example_opts)
      [Node (ast_List True)
         [Node ast_ListItem [Node ast_TextBlock [Node (ast_Text ''a'') []]],
          Node ast_ListItem [Node ast_TextBlock [Node (ast_Text ''b'') []],
             Node (ast_List True) [Node ast_ListItem [Node ast_TextBlock [Node (ast_Text ''nested'') []]]]],
          Node ast_ListItem [Node ast_TextBlock [Node (ast_Text ''c'') []]]]])
     = [list_item_para 360 22 ''1. '' (wrapRuns (New example_opts) [RunStyle0\<lparr>Text := ''a''\<rparr>] 22),
        list_item_para 360 22 ''2. '' (wrapRuns (New example_opts) [RunStyle0\<lparr>Text := ''b''\<rparr>] 22),
        list_item_para 720 22 ''1. '' (wrapRuns (New example_opts) [RunStyle0\<lparr>Text := ''nested''\<rparr>] 22),
        list_item_para 360 22 ''3. '' (wrapRuns (New example_opts) [RunStyle0\<lparr>Text := ''c''\<rparr>] 22)]"
proof -
  have a: "escapeXML bullet_literal = bullet_literal"
    by (simp add: bullet_literal_def esc_eval)
  have b: "paragraphs (processNode (New example_opts)
      [Node (ast_List False) [Node ast_ListItem [Node ast_TextBlock [Node (ast_Text ''a'') []]]]])
     = [list_item_para 360 22 bullet_literal
          (wrapRuns (New example_opts) [RunStyle0\<lparr>Text := ''a''\<rparr>] 22)]"
    by (simp add: addList_def item_para_def list_bullet_def append_paragraph_def New_def
        example_opts_def go_int_vals Let_def wrapRuns_def)
  show ?thesis unfolding ordered_scenario using a b by (simp add: bullet_literal_def)
qed




text \<open>C5: the code differs from the claim. With \<open>CodeFontFamily = ''Courier New''\<close> the run
  of a code span and the line of a fenced code block are written with the font Consolas; the
  option is read nowhere, so the output is the same for every value of it.\<close>

theorem code_font_family_ignored:
  \<open>CodeFontFamily example_opts = ''Courier New''
   \<and> wrapRuns (New example_opts) (processInlineNodes [Node ast_CodeSpan [Node (ast_Text ''x'') []]]) 22
     = ''<w:r><w:rPr><w:highlight w:val="lightGray"/><w:rFonts w:ascii="Consolas" w:hAnsi="Consolas"/><w:sz w:val="20"/><w:szCs w:val="20"/></w:rPr><w:t xml:space="preserve">x</w:t></w:r>''
   \<and> paragraphs (processNode (New example_opts) [Node (ast_FencedCodeBlock [''x\<newline>'']) []])
     = [''<w:p>\<newline>'' @
     ''      <w:pPr>\<newline>'' @
     ''        <w:shd w:val="clear" w:color="auto" w:fill="F6F8FA"/>\<newline>'' @
     ''        <w:ind w:left="360"/>\<newline>'' @
     ''        <w:spacing w:after="0"/>\<newline>'' @
     ''      </w:pPr>\<newline>'' @
     ''      <w:r>\<newline>'' @
     ''        <w:rPr>\<newline>'' @
     ''          <w:rFonts w:ascii="Consolas" w:hAnsi="Consolas"/>\<newline>'' @
     ''          <w:sz w:val="20"/>\<newline>'' @
     ''          <w:szCs w:val="20"/>\<newline>'' @
     ''        </w:rPr>\<newline>'' @
     ''        <w:t xml:space="preserve">x</w:t>\<newline>'' @
     ''      </w:r>\<newline>'' @
     ''    </w:p>'', code_spacer]
   \<and> wrapRuns (New (os\<lparr>CodeFontFamily := f\<rparr>)) runs sz = wrapRuns (New os) runs sz
   \<and> paragraphs (addCodeBlock (New (os\<lparr>CodeFontFamily := f\<rparr>)) ls)
     = paragraphs (addCodeBlock (New os) ls)\<close>
proof -
  have a: "CodeFontFamily example_opts = ''Courier New''" by (simp add: example_opts_def)
  have b: \<open>wrapRuns (New example_opts) (processInlineNodes [Node ast_CodeSpan [Node (ast_Text ''x'') []]]) 22
     = ''<w:r><w:rPr><w:highlight w:val="lightGray"/><w:rFonts w:ascii="Consolas" w:hAnsi="Consolas"/><w:sz w:val="20"/><w:szCs w:val="20"/></w:rPr><w:t xml:space="preserve">x</w:t></w:r>''\<close>
    by (simp add: wrapRuns_def wrapRun_def New_def example_opts_def RunStyle0_def go_int_vals
        itoa_vals esc_eval trim_eval)
  have c: "paragraphs (processNode (New example_opts) [Node (ast_FencedCodeBlock [''x\<newline>'']) []])
     = [code_line_para 20 ''x'', code_spacer]"
    by (simp add: addCodeBlock_paragraphs New_def example_opts_def go_int_vals TrimRight_nl_def)
  have d: "wrapRuns (New (os\<lparr>CodeFontFamily := f\<rparr>)) runs sz = wrapRuns (New os) runs sz"
    by (simp add: wrapRuns_def New_def)
  have e: "paragraphs (addCodeBlock (New (os\<lparr>CodeFontFamily := f\<rparr>)) ls)
     = paragraphs (addCodeBlock (New os) ls)"
    by (simp add: addCodeBlock_paragraphs New_def)
  show ?thesis unfolding c using a b d e
    by (simp add: code_line_para_def itoa_vals esc_eval)
qed



text \<open>C2. When the first nested list of an item comes after children \<open>pre\<close> (none of them
  a list), the item appends its own fragment, with the runs of the text blocks and paragraphs
  of \<open>pre\<close> only, then the fragments of the nested list translated one level deeper; the
  children \<open>post\<close> after that list do not occur in the result.\<close>

theorem addListItem_nested_list:
  assumes "\<forall>x\<in>set pre. \<not> is_list x"
  shows "paragraphs (addListItem c (pre @ Node (ast_List ordered) sub # post) level isOrdered itemNum)
       = paragraphs c @ [item_para c level isOrdered itemNum (own_runs pre)]
         @ paragraphs (addList (New (opts c)) ordered sub (level + 1))"
proof -
  define c' where "c' = append_paragraph c (item_para c level isOrdered itemNum (own_runs pre))"
  have o: "opts c' = opts c" by (simp add: c'_def append_paragraph_def)
  have p: "paragraphs c' = paragraphs c @ [item_para c level isOrdered itemNum (own_runs pre)]"
    by (simp add: c'_def append_paragraph_def)
  have "addListItem c (pre @ Node (ast_List ordered) sub # post) level isOrdered itemNum
      = addList_loop c' sub (level + 1) ordered 1"
    using addListItem_loop_nested[OF assms, of c ordered sub post level isOrdered itemNum "[]"]
    by (simp add: addListItem_def c'_def)
  moreover have "paragraphs (addList_loop c' sub (level + 1) ordered 1)
      = paragraphs c' @ paragraphs (addList_loop (New (opts c')) sub (level + 1) ordered 1)"
    by (rule framed_paragraphs[OF framed_list(1)])
  ultimately show ?thesis by (simp only: o p addList_def append_assoc)
qed

theorem addListItem_nested_list_witness:
  "\<not> is_list (Node ast_TextBlock [Node (ast_Text ''b'') []])
   \<and> paragraphs (addListItem (New example_opts)
        ([Node ast_TextBlock [Node (ast_Text ''b'') []]]
         @ Node (ast_List True) [Node ast_ListItem [Node ast_TextBlock [Node (ast_Text ''n'') []]]]
         # [Node ast_Paragraph [Node (ast_Text ''lost'') []]]) 0 True 2)
     = [item_para (New example_opts) 0 True 2 [RunStyle0\<lparr>Text := ''b''\<rparr>],
        item_para (New example_opts) 1 True 1 [RunStyle0\<lparr>Text := ''n''\<rparr>]]"
proof -
  have h: "\<forall>x\<in>set [Node ast_TextBlock [Node (ast_Text ''b'') []]]. \<not> is_list x"
    by (simp add: is_list_def)
  from addListItem_nested_list[OF h, of "New example_opts" True
      "[Node ast_ListItem [Node ast_TextBlock [Node (ast_Text ''n'') []]]]"
      "[Node ast_Paragraph [Node (ast_Text ''lost'') []]]" 0 True 2] h
  show ?thesis
    by (simp add: own_runs_def own_runs_of_def addList_def append_paragraph_def
        paragraphs_New opts_New item_para_cong[of "New example_opts\<lparr>paragraphs := []\<rparr>" "New example_opts"])
qed



text \<open>C8. The archive always holds exactly the five fixed parts, under distinct names, and
  every relationship target and content-type override names one of them. The walk has no
  failing branch, so \<^verbatim>\<open>Convert\<close> reports an error exactly when writing the output file
  does; a document without children, as the parser gives for empty input, leaves the
  fragment sequence empty while the archive keeps all its parts.\<close>

theorem docx_fixed_part_set:
  "map fst (docx_archive c)
     = [''[Content_Types].xml'', ''_rels/.rels'', ''word/_rels/document.xml.rels'',
        ''word/styles.xml'', ''word/document.xml'']
   \<and> distinct (map fst (docx_archive c))
   \<and> set (referenced_parts (docx_archive c)) \<subseteq> set (map fst (docx_archive c))
   \<and> fst (Convert parse WriteFile c0 markdown outputPath)
       = processNode (c0\<lparr>paragraphs := []\<rparr>) (children (parse markdown))
   \<and> (snd (Convert parse WriteFile c0 markdown outputPath) = None
        \<longleftrightarrow> WriteFile outputPath
              (docx_archive (fst (Convert parse WriteFile c0 markdown outputPath))) = None)
   \<and> (children (parse markdown) = [] \<longrightarrow>
        paragraphs (fst (Convert parse WriteFile c0 markdown outputPath)) = [])"
proof -
  have a: "fst (Convert parse WriteFile c0 markdown outputPath)
       = processNode (c0\<lparr>paragraphs := []\<rparr>) (children (parse markdown))"
    by (simp add: Convert_def Let_def createDocx_def split: option.split error.split)
  have b: "snd (Convert parse WriteFile c0 markdown outputPath) = None
        \<longleftrightarrow> WriteFile outputPath
              (docx_archive (processNode (c0\<lparr>paragraphs := []\<rparr>) (children (parse markdown)))) = None"
    by (simp add: Convert_def Let_def createDocx_def split: option.split error.split)
  have c: "children (parse markdown) = [] \<longrightarrow>
        paragraphs (processNode (c0\<lparr>paragraphs := []\<rparr>) (children (parse markdown))) = []"
    by simp
  show ?thesis unfolding a using b c
    by (simp add: docx_names referenced_parts_docx)
qed

theorem docx_fixed_part_set_witness:
  "children ((\<lambda>s. Node ast_Document []) []) = []
   \<and> Convert (\<lambda>s. Node ast_Document []) (\<lambda>p w. None) (New example_opts) [] ''out.docx''
       = (New example_opts, None)
   \<and> map fst (docx_archive (New example_opts))
     = [''[Content_Types].xml'', ''_rels/.rels'', ''word/_rels/document.xml.rels'',
        ''word/styles.xml'', ''word/document.xml'']
   \<and> referenced_parts (docx_archive (New example_opts))
     = [''word/document.xml'', ''word/styles.xml'', ''word/document.xml'', ''word/styles.xml'']"
proof -
  have h: "children ((\<lambda>s. Node ast_Document []) []) = []" by simp
  have r: "referenced_parts (docx_archive (New example_opts))
     = [''word/document.xml'', ''word/styles.xml'', ''word/document.xml'', ''word/styles.xml'']"
    by (rule referenced_parts_docx)
  from docx_fixed_part_set[of "New example_opts" "\<lambda>s. Node ast_Document []" "\<lambda>p w. None"
      "New example_opts" "[]" "''out.docx''"] h r
  show ?thesis by (simp add: prod_eq_iff New_def)
qed





end
